theory Spec2Isabelle
  imports Main "HOL-Library.AList"
begin

section \<open>Field permissions of strawberry: a model of \<^verbatim>\<open>strawberry/permission.py\<close>\<close>

text \<open>
  The module defines \<^verbatim>\<open>BasePermission\<close> (a check, what happens on denial, a lazily
  created schema directive) and \<^verbatim>\<open>PermissionExtension\<close> (the field extension that
  runs an ordered list of permissions before the wrapped resolver). Python objects that
  are mutated (the directive slot of a permission, the directive list of a field, the
  flags of the extension) are threaded explicitly; exceptions are the \<open>Raise\<close> branch of
  an outcome; what a run calls is recorded in a list of events.
\<close>

subsection \<open>Field types and fields\<close>

text \<open>
  \<^verbatim>\<open>StrawberryOptional\<close> and \<^verbatim>\<open>StrawberryList\<close> are sibling container classes (neither
  is a subclass of the other), so \<^verbatim>\<open>isinstance\<close> is a test of the outermost constructor.
  Every other type of a field is \<open>OtherType\<close>.
\<close>

datatype strawberry_type =
    StrawberryOptional (of_type: strawberry_type)
  | StrawberryList strawberry_type
  | OtherType string

text \<open>
  Objects are known by their identity, a natural number. \<^verbatim>\<open>field.directives\<close> is the
  list of the directive objects of a field, \<^verbatim>\<open>field.type\<close> its declared type.
\<close>

type_synonym obj_id = nat

record field =
  directives :: "obj_id list"
  type :: strawberry_type

subsection \<open>Python values, outcomes and exceptions\<close>

text \<open>
  The values a check or a resolver can hand back. \<open>PyAwaitable r\<close> is a coroutine or
  future that, once awaited, has the outcome \<open>r\<close>; \<open>PyAsyncGen g\<close> is the async
  generator object of identity \<open>g\<close>. A call either returns a value or raises.
  \<open>GraphQLError c m x\<close> is an instance of the error class named \<open>c\<close> with message \<open>m\<close>
  and the attribute \<^verbatim>\<open>extensions\<close> equal to \<open>x\<close> (\<open>None\<close> or a dict, kept in insertion
  order).
\<close>

datatype pyval =
    PyNone
  | PyBool bool
  | PyInt int
  | PyStr string
  | PyList "pyval list"
  | PyDict "(string \<times> pyval) list"
  | PyAsyncGen obj_id
  | PyAwaitable outcome
and outcome =
    Return pyval
  | Raise exn
and exn =
    GraphQLErrorExn graphql_error
  | PermissionFailSilentlyRequiresOptionalError field
  | TypeError
  | Exception string
and graphql_error =
    GraphQLError (error_class_name: string) (error_message: string)
      (extensions: "(string \<times> pyval) list option")

text \<open>Truth value testing of Python: \<^verbatim>\<open>not v\<close> is \<open>\<not> truthy v\<close>.\<close>

fun truthy :: "pyval \<Rightarrow> bool" where
  "truthy PyNone = False"
| "truthy (PyBool b) = b"
| "truthy (PyInt i) = (i \<noteq> 0)"
| "truthy (PyStr s) = (s \<noteq> [])"
| "truthy (PyList xs) = (xs \<noteq> [])"
| "truthy (PyDict kvs) = (kvs \<noteq> [])"
| "truthy (PyAsyncGen g) = True"
| "truthy (PyAwaitable r) = True"

text \<open>\<^verbatim>\<open>inspect.isasyncgen\<close> and \<^verbatim>\<open>inspect.isawaitable\<close>.\<close>

fun isasyncgen :: "pyval \<Rightarrow> bool" where
  "isasyncgen (PyAsyncGen g) = True"
| "isasyncgen v = False"

fun isawaitable :: "pyval \<Rightarrow> bool" where
  "isawaitable (PyAwaitable r) = True"
| "isawaitable v = False"

text \<open>
  The expression \<^verbatim>\<open>await v\<close>: the outcome of an awaitable, and a \<^verbatim>\<open>TypeError\<close> for an
  object that cannot be awaited.
\<close>

fun await :: "pyval \<Rightarrow> outcome" where
  "await (PyAwaitable r) = r"
| "await v = Raise TypeError"

text \<open>
  Modelled from the spec: \<^verbatim>\<open>strawberry.utils.await_maybe.await_maybe\<close> is imported by the
  module and not part of it. The specification describes it as the uniform await-or-value
  adapter: a plain result is used directly, a future is awaited and its resolved value
  used.
\<close>

definition await_maybe :: "pyval \<Rightarrow> outcome" where
  "await_maybe v = (if isawaitable v then await v else Return v)"

text \<open>Dictionaries: \<^verbatim>\<open>d.update(other)\<close> and the lookup \<^verbatim>\<open>d.get(k)\<close>.\<close>

definition dict_update :: "(string \<times> pyval) list \<Rightarrow> (string \<times> pyval) list \<Rightarrow> (string \<times> pyval) list" where
  "dict_update d other = fold (\<lambda>(k, v) acc. AList.update k v acc) other d"

definition dict_get :: "(string \<times> pyval) list option \<Rightarrow> string \<Rightarrow> pyval option" where
  "dict_get d k = (case d of None \<Rightarrow> None | Some kvs \<Rightarrow> map_of kvs k)"

subsection \<open>\<^verbatim>\<open>BasePermission\<close>\<close>

text \<open>
  The arguments of one field resolution: \<^verbatim>\<open>source\<close>, \<^verbatim>\<open>info\<close> and the keyword arguments.
\<close>

type_synonym call_args = "pyval \<times> pyval \<times> (string \<times> pyval) list"

text \<open>
  \<^verbatim>\<open>has_permission\<close> is the method a subclass supplies, declared with \<^verbatim>\<open>def\<close> or with
  \<^verbatim>\<open>async def\<close>. Calling an \<^verbatim>\<open>async def\<close> runs none of its body: it returns a coroutine
  object. A \<^verbatim>\<open>def\<close> may itself return an awaitable.
\<close>

datatype check =
    SyncDef "call_args \<Rightarrow> outcome"
  | AsyncDef "call_args \<Rightarrow> outcome"

fun iscoroutinefunction :: "check \<Rightarrow> bool" where
  "iscoroutinefunction (AsyncDef body) = True"
| "iscoroutinefunction (SyncDef body) = False"

fun call_check :: "check \<Rightarrow> call_args \<Rightarrow> outcome" where
  "call_check (SyncDef body) args = body args"
| "call_check (AsyncDef body) args = Return (PyAwaitable (body args))"

text \<open>
  A permission instance: its identity, the name of its class, the class attributes
  \<^verbatim>\<open>message\<close>, \<^verbatim>\<open>error_extensions\<close> and \<^verbatim>\<open>error_class\<close> (the constructor, from a message to
  a fresh error), its check, and the outcome of \<^verbatim>\<open>on_unauthorized\<close> when a subclass
  overrides it (\<open>None\<close>: the method of \<^verbatim>\<open>BasePermission\<close> is inherited).
\<close>

record permission =
  perm_id :: obj_id
  class_name :: string
  message :: "string option"
  error_extensions :: "(string \<times> pyval) list option"
  error_class :: "string \<Rightarrow> graphql_error"
  has_permission :: check
  on_unauthorized_override :: "outcome option"

text \<open>
  \<^verbatim>\<open>BasePermission.on_unauthorized\<close>. \<^verbatim>\<open>self.message or ""\<close> is the message unless it is
  \<^verbatim>\<open>None\<close> or empty; \<^verbatim>\<open>if self.error_extensions\<close> and \<^verbatim>\<open>if not error.extensions\<close> test a
  value that is \<^verbatim>\<open>None\<close> or a dict, which is true when it is a dict with an entry.
\<close>

definition dict_truthy :: "(string \<times> pyval) list option \<Rightarrow> bool" where
  "dict_truthy d = (case d of None \<Rightarrow> False | Some kvs \<Rightarrow> kvs \<noteq> [])"

definition set_extensions :: "graphql_error \<Rightarrow> (string \<times> pyval) list option \<Rightarrow> graphql_error" where
  "set_extensions error x = GraphQLError (error_class_name error) (error_message error) x"

definition on_unauthorized :: "permission \<Rightarrow> outcome" where
  "on_unauthorized self =
     (let error = error_class self
            (case message self of None \<Rightarrow> [] | Some m \<Rightarrow> if m = [] then [] else m) in
      let error =
        (case error_extensions self of
           None \<Rightarrow> error
         | Some ours \<Rightarrow>
             if ours = [] then error
             else
               (let error = (if \<not> dict_truthy (extensions error)
                             then set_extensions error (Some []) else error)
                in (case extensions error of
                      None \<Rightarrow> error
                    | Some d \<Rightarrow> set_extensions error (Some (dict_update d ours)))))
      in Raise (GraphQLErrorExn error))"

text \<open>The method that runs for \<^verbatim>\<open>permission.on_unauthorized()\<close>: the override if any.\<close>

definition call_on_unauthorized :: "permission \<Rightarrow> outcome" where
  "call_on_unauthorized p =
     (case on_unauthorized_override p of None \<Rightarrow> on_unauthorized p | Some r \<Rightarrow> r)"

text \<open>
  \<^verbatim>\<open>_schema_directive\<close> is the one attribute of a permission that changes. The heap keeps,
  for each permission identity, the directive object stored there (\<open>None\<close>: the class
  default), the \<^verbatim>\<open>AutoDirective\<close> objects constructed so far with the name their
  \<^verbatim>\<open>StrawberrySchemaDirective\<close> carries, and the identity the next new object gets.
  An \<^verbatim>\<open>AutoDirective\<close> defines neither \<^verbatim>\<open>__bool__\<close> nor \<^verbatim>\<open>__len__\<close> nor \<^verbatim>\<open>__eq__\<close>: it is
  true, and equal only to itself.
\<close>

record heap =
  schema_directive_slot :: "obj_id \<Rightarrow> obj_id option"
  auto_directives :: "(obj_id \<times> string) list"
  next_obj :: obj_id

text \<open>The property \<^verbatim>\<open>BasePermission.schema_directive\<close>: the object, and the heap after.\<close>

definition schema_directive :: "permission \<Rightarrow> heap \<Rightarrow> obj_id \<times> heap" where
  "schema_directive self h =
     (case schema_directive_slot h (perm_id self) of
        Some d \<Rightarrow> (d, h)
      | None \<Rightarrow>
          (let d = next_obj h in
           (d, h\<lparr>schema_directive_slot := (schema_directive_slot h)(perm_id self := Some d),
                 auto_directives := auto_directives h @ [(d, class_name self)],
                 next_obj := Suc d\<rparr>)))"

subsection \<open>\<^verbatim>\<open>PermissionExtension\<close>\<close>

text \<open>
  The attributes set by \<^verbatim>\<open>__init__\<close>, and the entry that \<^verbatim>\<open>cached_property\<close> keeps in
  the instance for \<^verbatim>\<open>supports_sync\<close> (\<open>None\<close> until the first read).
\<close>

record permission_extension =
  permissions :: "permission list"
  fail_silently :: bool
  return_empty_list :: bool
  use_directives :: bool
  supports_sync_cache :: "bool option"

text \<open>\<^verbatim>\<open>PermissionExtension.__init__(permissions, use_directives, fail_silently)\<close>.\<close>

definition init :: "permission list \<Rightarrow> bool \<Rightarrow> bool \<Rightarrow> permission_extension" where
  "init ps use_dirs silently =
     \<lparr>permissions = ps, fail_silently = silently, return_empty_list = False,
      use_directives = use_dirs, supports_sync_cache = None\<rparr>"

text \<open>
  \<^verbatim>\<open>apply\<close>, first half. The comprehension reads \<^verbatim>\<open>perm.schema_directive\<close> twice for each
  permission: in its filter, then for the element. The loop after it appends each
  directive that is not yet in \<^verbatim>\<open>field.directives\<close>.
\<close>

fun permission_directives :: "permission list \<Rightarrow> heap \<Rightarrow> obj_id list \<times> heap" where
  "permission_directives [] h = ([], h)"
| "permission_directives (perm # rest) h =
     (let (guard, h1) = schema_directive perm h;
          (d, h2) = schema_directive perm h1;
          (ds, h3) = permission_directives rest h2
      in (d # ds, h3))"

fun append_deduped :: "obj_id list \<Rightarrow> obj_id list \<Rightarrow> obj_id list" where
  "append_deduped [] fds = fds"
| "append_deduped (perm_directive # rest) fds =
     (if perm_directive \<in> set fds then append_deduped rest fds
      else append_deduped rest (fds @ [perm_directive]))"

text \<open>
  \<^verbatim>\<open>PermissionExtension.apply\<close>: the heap, the field and the extension after the call,
  and how the call ended. The directives are attached before the type is inspected, so
  they stay attached when the call raises.
\<close>

definition ext_apply ::
  "permission_extension \<Rightarrow> field \<Rightarrow> heap \<Rightarrow> heap \<times> field \<times> permission_extension \<times> outcome" where
  "ext_apply self fld h =
     (let (h, fld) =
        (if use_directives self then
           (let (pds, h') = permission_directives (permissions self) h
            in (h', fld\<lparr>directives := append_deduped pds (directives fld)\<rparr>))
         else (h, fld))
      in
      if fail_silently self then
        (case type fld of
           StrawberryOptional t \<Rightarrow>
             (case t of
                StrawberryList u \<Rightarrow> (h, fld, self\<lparr>return_empty_list := True\<rparr>, Return PyNone)
              | _ \<Rightarrow> (h, fld, self, Return PyNone))
         | StrawberryList t \<Rightarrow> (h, fld, self\<lparr>return_empty_list := True\<rparr>, Return PyNone)
         | OtherType n \<Rightarrow> (h, fld, self, Raise (PermissionFailSilentlyRequiresOptionalError fld)))
      else (h, fld, self, Return PyNone))"

subsection \<open>Resolution\<close>

text \<open>
  What a resolution calls, in order: the check of a permission, the \<^verbatim>\<open>on_unauthorized\<close> of
  a permission, the wrapped resolver \<^verbatim>\<open>next_\<close>, and the \<^verbatim>\<open>await\<close> of what \<^verbatim>\<open>next_\<close> returned.
\<close>

datatype event =
    HasPermission obj_id
  | OnUnauthorized obj_id
  | Next
  | AwaitNext

text \<open>\<^verbatim>\<open>PermissionExtension._on_unauthorized\<close>.\<close>

definition ext_on_unauthorized :: "permission_extension \<Rightarrow> permission \<Rightarrow> event list \<times> outcome" where
  "ext_on_unauthorized self p =
     (if fail_silently self
      then ([], Return (if return_empty_list self then PyList [] else PyNone))
      else ([OnUnauthorized (perm_id p)], call_on_unauthorized p))"

text \<open>
  \<^verbatim>\<open>PermissionExtension.resolve\<close>: the loop over \<^verbatim>\<open>self.permissions\<close>, then the call of
  \<^verbatim>\<open>next_\<close>. A check that raises ends the resolution with its exception.
\<close>

fun resolve_loop ::
  "permission_extension \<Rightarrow> permission list \<Rightarrow> (call_args \<Rightarrow> outcome) \<Rightarrow> call_args
     \<Rightarrow> event list \<times> outcome" where
  "resolve_loop self [] next_r args = ([Next], next_r args)"
| "resolve_loop self (p # rest) next_r args =
     (case call_check (has_permission p) args of
        Raise e \<Rightarrow> ([HasPermission (perm_id p)], Raise e)
      | Return v \<Rightarrow>
          (let (evs, r) = (if \<not> truthy v then ext_on_unauthorized self p
                           else resolve_loop self rest next_r args)
           in (HasPermission (perm_id p) # evs, r)))"

definition resolve ::
  "permission_extension \<Rightarrow> (call_args \<Rightarrow> outcome) \<Rightarrow> call_args \<Rightarrow> event list \<times> outcome" where
  "resolve self next_r args = resolve_loop self (permissions self) next_r args"

text \<open>
  \<^verbatim>\<open>PermissionExtension.resolve_async\<close>, run to its end: each check goes through
  \<^verbatim>\<open>await_maybe\<close>; what \<^verbatim>\<open>next_\<close> returns is handed back as it is when it is an async
  generator and is awaited otherwise.
\<close>

fun resolve_async_loop ::
  "permission_extension \<Rightarrow> permission list \<Rightarrow> (call_args \<Rightarrow> outcome) \<Rightarrow> call_args
     \<Rightarrow> event list \<times> outcome" where
  "resolve_async_loop self [] next_r args =
     (case next_r args of
        Raise e \<Rightarrow> ([Next], Raise e)
      | Return nxt \<Rightarrow>
          if isasyncgen nxt then ([Next], Return nxt)
          else ([Next, AwaitNext], await nxt))"
| "resolve_async_loop self (p # rest) next_r args =
     (case call_check (has_permission p) args of
        Raise e \<Rightarrow> ([HasPermission (perm_id p)], Raise e)
      | Return v \<Rightarrow>
          (case await_maybe v of
             Raise e \<Rightarrow> ([HasPermission (perm_id p)], Raise e)
           | Return has_perm \<Rightarrow>
               (let (evs, r) = (if \<not> truthy has_perm then ext_on_unauthorized self p
                                else resolve_async_loop self rest next_r args)
                in (HasPermission (perm_id p) # evs, r))))"

definition resolve_async ::
  "permission_extension \<Rightarrow> (call_args \<Rightarrow> outcome) \<Rightarrow> call_args \<Rightarrow> event list \<times> outcome" where
  "resolve_async self next_r args = resolve_async_loop self (permissions self) next_r args"

text \<open>
  \<^verbatim>\<open>PermissionExtension.supports_sync\<close>, a \<^verbatim>\<open>cached_property\<close>: the body runs on the first
  read and its value is stored in the instance; later reads return the stored value.
\<close>

definition supports_sync_body :: "permission_extension \<Rightarrow> bool" where
  "supports_sync_body self =
     (let async_permissions =
        map (\<lambda>p. True) (filter (\<lambda>p. iscoroutinefunction (has_permission p)) (permissions self))
      in length async_permissions = 0)"

definition supports_sync :: "permission_extension \<Rightarrow> bool \<times> permission_extension" where
  "supports_sync self =
     (case supports_sync_cache self of
        Some b \<Rightarrow> (b, self)
      | None \<Rightarrow>
          (let b = supports_sync_body self in (b, self\<lparr>supports_sync_cache := Some b\<rparr>)))"

subsection \<open>Notions the properties are stated with\<close>

text \<open>
  What a check decides as the synchronous path sees it (the truth value of what the call
  returns) and as the asynchronous path sees it (the truth value of what \<^verbatim>\<open>await_maybe\<close>
  resolves it to); \<open>None\<close> when the check raises. \<open>first_denial verdict ps k\<close>: the
  permissions before index \<open>k\<close> grant and the one at index \<open>k\<close> denies.
\<close>

definition sync_verdict :: "permission \<Rightarrow> call_args \<Rightarrow> bool option" where
  "sync_verdict p args =
     (case call_check (has_permission p) args of
        Raise e \<Rightarrow> None
      | Return v \<Rightarrow> Some (truthy v))"

definition async_verdict :: "permission \<Rightarrow> call_args \<Rightarrow> bool option" where
  "async_verdict p args =
     (case call_check (has_permission p) args of
        Raise e \<Rightarrow> None
      | Return v \<Rightarrow>
          (case await_maybe v of
             Raise e \<Rightarrow> None
           | Return has_perm \<Rightarrow> Some (truthy has_perm)))"

definition first_denial :: "(permission \<Rightarrow> bool option) \<Rightarrow> permission list \<Rightarrow> nat \<Rightarrow> bool" where
  "first_denial verdict ps k =
     (k < length ps \<and> list_all (\<lambda>p. verdict p = Some True) (take k ps)
      \<and> verdict (ps ! k) = Some False)"

definition check_events :: "permission list \<Rightarrow> event list" where
  "check_events ps = map (\<lambda>p. HasPermission (perm_id p)) ps"

text \<open>
  The shape of a field type as \<^verbatim>\<open>apply\<close> tests it: \<^verbatim>\<open>isinstance(t, StrawberryOptional)\<close>,
  \<^verbatim>\<open>isinstance(t, StrawberryList)\<close>, and an optional whose \<^verbatim>\<open>of_type\<close> is a list.
\<close>

definition isinstance_optional :: "strawberry_type \<Rightarrow> bool" where
  "isinstance_optional t = (case t of StrawberryOptional u \<Rightarrow> True | _ \<Rightarrow> False)"

definition isinstance_list :: "strawberry_type \<Rightarrow> bool" where
  "isinstance_list t = (case t of StrawberryList u \<Rightarrow> True | _ \<Rightarrow> False)"

definition optional_of_list :: "strawberry_type \<Rightarrow> bool" where
  "optional_of_list t = (case t of StrawberryOptional u \<Rightarrow> isinstance_list u | _ \<Rightarrow> False)"

text \<open>The elements of a list in the order of their first occurrence, each once.\<close>

fun keep_first :: "'a list \<Rightarrow> 'a list" where
  "keep_first [] = []"
| "keep_first (x # xs) = x # keep_first (filter (\<lambda>y. y \<noteq> x) xs)"


text \<open>
  The error that \<^verbatim>\<open>on_unauthorized\<close> constructs, before its extensions are touched; and
  the well-formedness of an optional dict, whose keys are distinct.
\<close>

definition constructed_error :: "permission \<Rightarrow> graphql_error" where
  "constructed_error p = error_class p (case message p of None \<Rightarrow> [] | Some m \<Rightarrow> m)"

definition is_dict :: "(string \<times> pyval) list option \<Rightarrow> bool" where
  "is_dict d = (case d of None \<Rightarrow> True | Some kvs \<Rightarrow> distinct (map fst kvs))"

text \<open>Inputs for the examples: error classes, permissions, call arguments and a heap.\<close>

definition StrawberryGraphQLError :: "string \<Rightarrow> graphql_error" where
  "StrawberryGraphQLError m = GraphQLError ''StrawberryGraphQLError'' m (Some [])"

definition IsAuthenticated :: permission where
  "IsAuthenticated =
     \<lparr>perm_id = 0, class_name = ''IsAuthenticated'', message = Some ''User is not authenticated'',
      error_extensions = None, error_class = StrawberryGraphQLError,
      has_permission = SyncDef (\<lambda>args. Return (PyBool True)),
      on_unauthorized_override = None\<rparr>"

definition IsAdmin :: permission where
  "IsAdmin =
     \<lparr>perm_id = 1, class_name = ''IsAdmin'', message = Some ''no'',
      error_extensions = Some [(''code'', PyStr ''FORBIDDEN'')], error_class = StrawberryGraphQLError,
      has_permission = SyncDef (\<lambda>args. Return (PyBool False)),
      on_unauthorized_override = Some (Raise (Exception ''CustomPermissionError''))\<rparr>"

definition IsOwner :: permission where
  "IsOwner =
     \<lparr>perm_id = 2, class_name = ''IsOwner'', message = None,
      error_extensions = None, error_class = StrawberryGraphQLError,
      has_permission = AsyncDef (\<lambda>args. Return (PyBool False)),
      on_unauthorized_override = None\<rparr>"

definition RoleError :: "string \<Rightarrow> graphql_error" where
  "RoleError m = GraphQLError ''RoleError'' m
     (Some [(''code'', PyStr ''ROLE''), (''hint'', PyStr ''ask an admin'')])"

definition HasRole :: permission where
  "HasRole =
     \<lparr>perm_id = 3, class_name = ''HasRole'', message = None,
      error_extensions = Some [(''code'', PyStr ''FORBIDDEN''), (''role'', PyStr ''editor'')],
      error_class = RoleError,
      has_permission = SyncDef (\<lambda>args. Return (PyBool False)),
      on_unauthorized_override = None\<rparr>"

definition empty_heap :: heap where
  "empty_heap = \<lparr>schema_directive_slot = (\<lambda>i. None), auto_directives = [], next_obj = 10\<rparr>"

definition no_args :: call_args where
  "no_args = (PyNone, PyNone, [])"

definition plain_resolver :: "call_args \<Rightarrow> outcome" where
  "plain_resolver args = Return (PyInt 7)"

section \<open>Properties\<close>

subsection \<open>The loops up to a denial\<close>

lemma resolve_loop_granted_prefix:
  "list_all (\<lambda>p. sync_verdict p args = Some True) pre \<Longrightarrow>
   resolve_loop self (pre @ rest) next_r args =
     (check_events pre @ fst (resolve_loop self rest next_r args),
      snd (resolve_loop self rest next_r args))"
proof (induction pre)
  case Nil
  then show ?case by (simp add: check_events_def)
next
  case (Cons p pre)
  then show ?case
    by (auto simp: check_events_def sync_verdict_def split: outcome.splits prod.splits)
qed

lemma resolve_async_loop_granted_prefix:
  "list_all (\<lambda>p. async_verdict p args = Some True) pre \<Longrightarrow>
   resolve_async_loop self (pre @ rest) next_r args =
     (check_events pre @ fst (resolve_async_loop self rest next_r args),
      snd (resolve_async_loop self rest next_r args))"
proof (induction pre)
  case Nil
  then show ?case by (simp add: check_events_def)
next
  case (Cons p pre)
  then show ?case
    by (auto simp: check_events_def async_verdict_def split: outcome.splits prod.splits)
qed

lemma split_at_denial:
  "k < length ps \<Longrightarrow> ps = take k ps @ (ps ! k) # drop (Suc k) ps"
  by (simp add: id_take_nth_drop)

lemma resolve_loop_first_denial:
  assumes "first_denial (\<lambda>p. sync_verdict p args) ps k"
  shows "resolve_loop self ps next_r args =
           (check_events (take (Suc k) ps) @ fst (ext_on_unauthorized self (ps ! k)),
            snd (ext_on_unauthorized self (ps ! k)))"
proof -
  from assms have k: "k < length ps"
    and pre: "list_all (\<lambda>p. sync_verdict p args = Some True) (take k ps)"
    and den: "sync_verdict (ps ! k) args = Some False"
    by (simp_all add: first_denial_def)
  have here: "resolve_loop self ((ps ! k) # drop (Suc k) ps) next_r args =
      (HasPermission (perm_id (ps ! k)) # fst (ext_on_unauthorized self (ps ! k)),
       snd (ext_on_unauthorized self (ps ! k)))"
    using den by (auto simp: sync_verdict_def split: outcome.splits prod.splits)
  have "resolve_loop self ps next_r args =
      resolve_loop self (take k ps @ (ps ! k) # drop (Suc k) ps) next_r args"
    using split_at_denial [OF k] by simp
  also have "\<dots> = (check_events (take k ps) @ HasPermission (perm_id (ps ! k)) # fst (ext_on_unauthorized self (ps ! k)),
       snd (ext_on_unauthorized self (ps ! k)))"
    by (simp only: resolve_loop_granted_prefix [OF pre] here fst_conv snd_conv)
  also have "check_events (take k ps) @ HasPermission (perm_id (ps ! k)) # fst (ext_on_unauthorized self (ps ! k))
     = check_events (take (Suc k) ps) @ fst (ext_on_unauthorized self (ps ! k))"
    using k by (simp add: check_events_def take_Suc_conv_app_nth)
  finally show ?thesis .
qed

lemma resolve_async_loop_first_denial:
  assumes "first_denial (\<lambda>p. async_verdict p args) ps k"
  shows "resolve_async_loop self ps next_r args =
           (check_events (take (Suc k) ps) @ fst (ext_on_unauthorized self (ps ! k)),
            snd (ext_on_unauthorized self (ps ! k)))"
proof -
  from assms have k: "k < length ps"
    and pre: "list_all (\<lambda>p. async_verdict p args = Some True) (take k ps)"
    and den: "async_verdict (ps ! k) args = Some False"
    by (simp_all add: first_denial_def)
  have here: "resolve_async_loop self ((ps ! k) # drop (Suc k) ps) next_r args =
      (HasPermission (perm_id (ps ! k)) # fst (ext_on_unauthorized self (ps ! k)),
       snd (ext_on_unauthorized self (ps ! k)))"
    using den by (auto simp: async_verdict_def split: outcome.splits prod.splits)
  have "resolve_async_loop self ps next_r args =
      resolve_async_loop self (take k ps @ (ps ! k) # drop (Suc k) ps) next_r args"
    using split_at_denial [OF k] by simp
  also have "\<dots> = (check_events (take k ps) @ HasPermission (perm_id (ps ! k)) # fst (ext_on_unauthorized self (ps ! k)),
       snd (ext_on_unauthorized self (ps ! k)))"
    by (simp only: resolve_async_loop_granted_prefix [OF pre] here fst_conv snd_conv)
  also have "check_events (take k ps) @ HasPermission (perm_id (ps ! k)) # fst (ext_on_unauthorized self (ps ! k))
     = check_events (take (Suc k) ps) @ fst (ext_on_unauthorized self (ps ! k))"
    using k by (simp add: check_events_def take_Suc_conv_app_nth)
  finally show ?thesis .
qed

lemmas example_defs =
  IsAuthenticated_def IsAdmin_def IsOwner_def no_args_def StrawberryGraphQLError_def

lemma resolve_loop_silent_no_on_unauthorized:
  "fail_silently self \<Longrightarrow> OnUnauthorized i \<notin> set (fst (resolve_loop self ps next_r args))"
  by (induction ps) (auto simp: ext_on_unauthorized_def split: outcome.splits prod.splits if_splits)

lemma resolve_async_loop_silent_no_on_unauthorized:
  "fail_silently self \<Longrightarrow> OnUnauthorized i \<notin> set (fst (resolve_async_loop self ps next_r args))"
  by (induction ps) (auto simp: ext_on_unauthorized_def split: outcome.splits prod.splits if_splits)

subsection \<open>Order of the checks and short circuit\<close>

text \<open>
  C1. When the first denying permission of the list is at index \<open>k\<close> (those before it
  grant), \<^verbatim>\<open>resolve\<close> and \<^verbatim>\<open>resolve_async\<close> call the checks of the permissions at the
  indices \<open>0..k\<close>, once each and in the declared order, and call neither a later check
  nor \<^verbatim>\<open>next_\<close>: the events of the run are exactly those \<open>k + 1\<close> checks, followed by the
  \<^verbatim>\<open>on_unauthorized\<close> of the denying permission unless the extension fails silently.
  A denial is a check whose result is false for the path that runs it: the value
  returned in \<^verbatim>\<open>resolve\<close>, the value after \<^verbatim>\<open>await_maybe\<close> in \<^verbatim>\<open>resolve_async\<close>.
\<close>

theorem checks_run_up_to_first_denial:
  "(first_denial (\<lambda>p. sync_verdict p args) (permissions self) k \<longrightarrow>
      fst (resolve self next_r args) =
        check_events (take (Suc k) (permissions self)) @
        (if fail_silently self then [] else [OnUnauthorized (perm_id (permissions self ! k))]))
   \<and> (first_denial (\<lambda>p. async_verdict p args) (permissions self) k \<longrightarrow>
      fst (resolve_async self next_r args) =
        check_events (take (Suc k) (permissions self)) @
        (if fail_silently self then [] else [OnUnauthorized (perm_id (permissions self ! k))]))"
  by (simp add: resolve_def resolve_async_def resolve_loop_first_denial
      resolve_async_loop_first_denial ext_on_unauthorized_def)

text \<open>
  The theorem at the permissions \<open>[IsAuthenticated, IsAdmin, IsAuthenticated]\<close>: the second
  one denies, the third check and \<^verbatim>\<open>next_\<close> are not called.
\<close>

theorem checks_run_up_to_first_denial_witness:
  "first_denial (\<lambda>p. sync_verdict p no_args) [IsAuthenticated, IsAdmin, IsAuthenticated] 1
   \<and> first_denial (\<lambda>p. async_verdict p no_args) [IsAuthenticated, IsAdmin, IsAuthenticated] 1
   \<and> fst (resolve (init [IsAuthenticated, IsAdmin, IsAuthenticated] True False)
            (\<lambda>args. Return (PyInt 7)) no_args)
       = [HasPermission 0, HasPermission 1, OnUnauthorized 1]
   \<and> fst (resolve_async (init [IsAuthenticated, IsAdmin, IsAuthenticated] True False)
            (\<lambda>args. Return (PyAwaitable (Return (PyInt 7)))) no_args)
       = [HasPermission 0, HasPermission 1, OnUnauthorized 1]"
proof -
  let ?ps = "[IsAuthenticated, IsAdmin, IsAuthenticated]"
  have s: "first_denial (\<lambda>p. sync_verdict p no_args) ?ps 1"
    by (simp add: first_denial_def sync_verdict_def example_defs)
  have a: "first_denial (\<lambda>p. async_verdict p no_args) ?ps 1"
    by (simp add: first_denial_def async_verdict_def await_maybe_def example_defs)
  have p: "permissions (init ?ps True False) = ?ps" "\<not> fail_silently (init ?ps True False)"
    by (simp_all add: init_def)
  have ev: "check_events (take (Suc 1) ?ps) = [HasPermission 0, HasPermission 1]" "perm_id (?ps ! 1) = 1"
    by (simp_all add: check_events_def example_defs)
  from checks_run_up_to_first_denial [of no_args "init ?ps True False" 1 "\<lambda>args. Return (PyInt 7)"]
    checks_run_up_to_first_denial [of no_args "init ?ps True False" 1 "\<lambda>args. Return (PyAwaitable (Return (PyInt 7)))"]
    s a show ?thesis
    by (simp only: p ev simp_thms if_False append.simps)
qed

subsection \<open>Silent denial\<close>

text \<open>
  C3. With \<^verbatim>\<open>fail_silently\<close> set, a resolution (synchronous or asynchronous) in which a
  permission denies returns the sentinel of the empty-value policy, \<^verbatim>\<open>[]\<close> when
  \<^verbatim>\<open>return_empty_list\<close> is set and \<^verbatim>\<open>None\<close> otherwise, and raises no error.
\<close>

theorem silent_denial_returns_sentinel:
  assumes "fail_silently self"
  shows "(first_denial (\<lambda>p. sync_verdict p args) (permissions self) k \<longrightarrow>
            snd (resolve self next_r args) =
              Return (if return_empty_list self then PyList [] else PyNone))
       \<and> (first_denial (\<lambda>p. async_verdict p args) (permissions self) k \<longrightarrow>
            snd (resolve_async self next_r args) =
              Return (if return_empty_list self then PyList [] else PyNone))"
  using assms
  by (simp add: resolve_def resolve_async_def resolve_loop_first_denial
      resolve_async_loop_first_denial ext_on_unauthorized_def)

text \<open>
  The theorem on an optional scalar policy (synchronous path) and on a list policy
  (asynchronous path, where the denying check is a coroutine function).
\<close>

theorem silent_denial_returns_sentinel_witness:
  "fail_silently (init [IsAuthenticated, IsAdmin] False True)
   \<and> first_denial (\<lambda>p. sync_verdict p no_args) [IsAuthenticated, IsAdmin] 1
   \<and> first_denial (\<lambda>p. async_verdict p no_args) [IsOwner, IsAdmin] 0
   \<and> snd (resolve (init [IsAuthenticated, IsAdmin] False True) (\<lambda>args. Return (PyInt 7)) no_args)
       = Return PyNone
   \<and> snd (resolve_async ((init [IsOwner, IsAdmin] False True)\<lparr>return_empty_list := True\<rparr>)
            (\<lambda>args. Return (PyInt 7)) no_args)
       = Return (PyList [])"
proof -
  let ?e1 = "init [IsAuthenticated, IsAdmin] False True"
  let ?e2 = "(init [IsOwner, IsAdmin] False True)\<lparr>return_empty_list := True\<rparr>"
  have f: "fail_silently ?e1" "fail_silently ?e2"
    by (simp_all add: init_def)
  have p: "permissions ?e1 = [IsAuthenticated, IsAdmin]" "permissions ?e2 = [IsOwner, IsAdmin]"
    "\<not> return_empty_list ?e1" "return_empty_list ?e2"
    by (simp_all add: init_def)
  have s: "first_denial (\<lambda>p. sync_verdict p no_args) [IsAuthenticated, IsAdmin] 1"
    by (simp add: first_denial_def sync_verdict_def example_defs)
  have a: "first_denial (\<lambda>p. async_verdict p no_args) [IsOwner, IsAdmin] 0"
    by (simp add: first_denial_def async_verdict_def await_maybe_def example_defs)
  from silent_denial_returns_sentinel [OF f(1), of no_args 1 "\<lambda>args. Return (PyInt 7)"]
    silent_denial_returns_sentinel [OF f(2), of no_args 0 "\<lambda>args. Return (PyInt 7)"]
    s a f(1) show ?thesis
    by (simp only: p simp_thms if_False if_True)
qed

text \<open>
  C10. With \<^verbatim>\<open>fail_silently\<close> set, a denial never calls the \<^verbatim>\<open>on_unauthorized\<close> of the denying
  permission, overridden or not: \<^verbatim>\<open>_on_unauthorized\<close> returns the sentinel, which is given
  by the state of the extension alone, and no resolution contains an \<^verbatim>\<open>on_unauthorized\<close>
  call.
\<close>

theorem silent_denial_skips_on_unauthorized:
  assumes "fail_silently self"
  shows "ext_on_unauthorized self p =
           ([], Return (if return_empty_list self then PyList [] else PyNone))
       \<and> OnUnauthorized i \<notin> set (fst (resolve self next_r args))
       \<and> OnUnauthorized i \<notin> set (fst (resolve_async self next_r args))"
  using assms
  by (simp add: resolve_def resolve_async_def ext_on_unauthorized_def
      resolve_loop_silent_no_on_unauthorized resolve_async_loop_silent_no_on_unauthorized)

text \<open>The theorem at \<open>IsAdmin\<close>, whose \<^verbatim>\<open>on_unauthorized\<close> is overridden.\<close>

theorem silent_denial_skips_on_unauthorized_witness:
  "fail_silently (init [IsAdmin] True True)
   \<and> on_unauthorized_override IsAdmin = Some (Raise (Exception ''CustomPermissionError''))
   \<and> ext_on_unauthorized (init [IsAdmin] True True) IsAdmin = ([], Return PyNone)
   \<and> OnUnauthorized 1 \<notin> set (fst (resolve (init [IsAdmin] True True) (\<lambda>args. Return (PyInt 7)) no_args))
   \<and> OnUnauthorized 1 \<notin> set (fst (resolve_async (init [IsAdmin] True True) (\<lambda>args. Return (PyInt 7)) no_args))"
proof -
  have f: "fail_silently (init [IsAdmin] True True)"
    by (simp add: init_def)
  have r: "\<not> return_empty_list (init [IsAdmin] True True)"
    by (simp add: init_def)
  have o: "on_unauthorized_override IsAdmin = Some (Raise (Exception ''CustomPermissionError''))"
    by (simp add: IsAdmin_def)
  from silent_denial_skips_on_unauthorized [OF f, of IsAdmin 1 "\<lambda>args. Return (PyInt 7)" no_args] f o r
  show ?thesis by (simp only: simp_thms if_False)
qed

subsection \<open>A coroutine function on the synchronous path\<close>

lemma resolve_loop_all_granted:
  "list_all (\<lambda>q. sync_verdict q args = Some True) ps \<Longrightarrow>
   resolve_loop self ps next_r args = (check_events ps @ [Next], next_r args)"
  using resolve_loop_granted_prefix [of args ps self "[]" next_r] by simp

lemma resolve_loop_calls_first_check:
  "\<exists>evs. fst (resolve_loop self (q # rest) next_r args) = HasPermission (perm_id q) # evs"
  by (simp split: outcome.splits prod.splits)

text \<open>
  C9. When \<^verbatim>\<open>resolve\<close> reaches a permission whose \<^verbatim>\<open>has_permission\<close> is declared with
  \<^verbatim>\<open>async def\<close>, the truth value of the coroutine object is tested and the coroutine is
  never awaited: the permission counts as granted whatever its body would decide, and
  the resolution goes on. When the permissions after it grant (or there is none),
  \<^verbatim>\<open>next_\<close> is called and its outcome is the outcome of \<^verbatim>\<open>resolve\<close>; when a permission
  follows, its check is the next call; when the first denial among the permissions
  after it is at index \<open>k\<close>, the run is decided there.
\<close>

theorem sync_resolve_grants_coroutine_check:
  assumes "permissions self = pre @ p # rest"
    and "list_all (\<lambda>q. sync_verdict q args = Some True) pre"
    and "has_permission p = AsyncDef body"
  shows "sync_verdict p args = Some True
       \<and> (list_all (\<lambda>q. sync_verdict q args = Some True) rest \<longrightarrow>
            resolve self next_r args = (check_events (pre @ p # rest) @ [Next], next_r args))
       \<and> (\<forall>q rest'. rest = q # rest' \<longrightarrow>
            (\<exists>evs. fst (resolve self next_r args) = check_events (pre @ [p, q]) @ evs))
       \<and> (\<forall>k. first_denial (\<lambda>q. sync_verdict q args) rest k \<longrightarrow>
            resolve self next_r args =
              (check_events (pre @ p # take (Suc k) rest) @
                 (if fail_silently self then [] else [OnUnauthorized (perm_id (rest ! k))]),
               if fail_silently self
               then Return (if return_empty_list self then PyList [] else PyNone)
               else call_on_unauthorized (rest ! k)))"
proof -
  have g: "sync_verdict p args = Some True"
    using assms(3) by (simp add: sync_verdict_def)
  with assms(2) have "list_all (\<lambda>q. sync_verdict q args = Some True) (pre @ [p])"
    by simp
  from resolve_loop_granted_prefix [OF this, of self rest next_r] assms(1)
  have rel: "resolve self next_r args =
      (check_events (pre @ [p]) @ fst (resolve_loop self rest next_r args),
       snd (resolve_loop self rest next_r args))"
    by (simp add: resolve_def)
  have a: "list_all (\<lambda>q. sync_verdict q args = Some True) rest \<longrightarrow>
      resolve self next_r args = (check_events (pre @ p # rest) @ [Next], next_r args)"
    by (simp add: rel resolve_loop_all_granted check_events_def)
  have c: "\<forall>q rest'. rest = q # rest' \<longrightarrow>
      (\<exists>evs. fst (resolve self next_r args) = check_events (pre @ [p, q]) @ evs)"
  proof (intro allI impI)
    fix q rest'
    assume r: "rest = q # rest'"
    from resolve_loop_calls_first_check [of self q rest' next_r args] obtain evs
      where "fst (resolve_loop self (q # rest') next_r args) = HasPermission (perm_id q) # evs"
      by blast
    then have "fst (resolve self next_r args) = check_events (pre @ [p, q]) @ evs"
      by (simp add: rel r check_events_def)
    then show "\<exists>evs. fst (resolve self next_r args) = check_events (pre @ [p, q]) @ evs"
      by blast
  qed
  have b: "\<forall>k. first_denial (\<lambda>q. sync_verdict q args) rest k \<longrightarrow>
      resolve self next_r args =
        (check_events (pre @ p # take (Suc k) rest) @
           (if fail_silently self then [] else [OnUnauthorized (perm_id (rest ! k))]),
         if fail_silently self
         then Return (if return_empty_list self then PyList [] else PyNone)
         else call_on_unauthorized (rest ! k))"
    by (simp add: rel resolve_loop_first_denial ext_on_unauthorized_def check_events_def)
  from g a c b show ?thesis by blast
qed

text \<open>
  The theorem at \<open>[IsAuthenticated, IsOwner]\<close>: the check of \<open>IsOwner\<close> resolves to
  \<^verbatim>\<open>False\<close>, and yet \<^verbatim>\<open>resolve\<close> calls \<^verbatim>\<open>next_\<close> and returns its value. And at
  \<open>[IsAuthenticated, IsOwner, IsAdmin, IsAuthenticated]\<close>: after \<open>IsOwner\<close> the check of
  \<open>IsAdmin\<close> is called, and it is \<open>IsAdmin\<close> that denies.
\<close>

theorem sync_resolve_grants_coroutine_check_witness:
  "permissions (init [IsAuthenticated, IsOwner] True False) = [IsAuthenticated] @ IsOwner # []
   \<and> permissions (init [IsAuthenticated, IsOwner, IsAdmin, IsAuthenticated] True False)
       = [IsAuthenticated] @ IsOwner # [IsAdmin, IsAuthenticated]
   \<and> list_all (\<lambda>q. sync_verdict q no_args = Some True) [IsAuthenticated]
   \<and> has_permission IsOwner = AsyncDef (\<lambda>args. Return (PyBool False))
   \<and> async_verdict IsOwner no_args = Some False
   \<and> sync_verdict IsOwner no_args = Some True
   \<and> first_denial (\<lambda>q. sync_verdict q no_args) [IsAdmin, IsAuthenticated] 0
   \<and> resolve (init [IsAuthenticated, IsOwner] True False) plain_resolver no_args
       = ([HasPermission 0, HasPermission 2, Next], Return (PyInt 7))
   \<and> resolve (init [IsAuthenticated, IsOwner, IsAdmin, IsAuthenticated] True False)
         plain_resolver no_args
       = ([HasPermission 0, HasPermission 2, HasPermission 1, OnUnauthorized 1],
          Raise (Exception ''CustomPermissionError''))"
proof -
  let ?e = "init [IsAuthenticated, IsOwner] True False"
  let ?e2 = "init [IsAuthenticated, IsOwner, IsAdmin, IsAuthenticated] True False"
  have a: "permissions ?e = [IsAuthenticated] @ IsOwner # []"
    by (simp add: init_def)
  have a2: "permissions ?e2 = [IsAuthenticated] @ IsOwner # [IsAdmin, IsAuthenticated]"
    by (simp add: init_def)
  have b: "list_all (\<lambda>q. sync_verdict q no_args = Some True) [IsAuthenticated]"
    by (simp add: sync_verdict_def example_defs)
  have c: "has_permission IsOwner = AsyncDef (\<lambda>args. Return (PyBool False))"
    by (simp add: IsOwner_def)
  have d: "async_verdict IsOwner no_args = Some False"
    by (simp add: async_verdict_def await_maybe_def example_defs)
  have f: "first_denial (\<lambda>q. sync_verdict q no_args) [IsAdmin, IsAuthenticated] 0"
    by (simp add: first_denial_def sync_verdict_def example_defs)
  have n: "list_all (\<lambda>q. sync_verdict q no_args = Some True) []"
    by simp
  have e1: "check_events ([IsAuthenticated] @ [IsOwner]) @ [Next]
       = [HasPermission 0, HasPermission 2, Next]"
    "plain_resolver no_args = Return (PyInt 7)"
    by (simp_all add: check_events_def plain_resolver_def example_defs)
  have e2: "check_events ([IsAuthenticated] @ IsOwner # take (Suc 0) [IsAdmin, IsAuthenticated]) @
         (if fail_silently ?e2 then [] else [OnUnauthorized (perm_id ([IsAdmin, IsAuthenticated] ! 0))])
       = [HasPermission 0, HasPermission 2, HasPermission 1, OnUnauthorized 1]"
    "(if fail_silently ?e2
       then Return (if return_empty_list ?e2 then PyList [] else PyNone)
       else call_on_unauthorized ([IsAdmin, IsAuthenticated] ! 0))
       = Raise (Exception ''CustomPermissionError'')"
    by (simp_all add: check_events_def call_on_unauthorized_def init_def example_defs)
  from sync_resolve_grants_coroutine_check [OF a b c, of plain_resolver] n
  have 1: "sync_verdict IsOwner no_args = Some True"
    and 2: "resolve ?e plain_resolver no_args
      = (check_events ([IsAuthenticated] @ [IsOwner]) @ [Next], plain_resolver no_args)"
    by simp_all
  from sync_resolve_grants_coroutine_check [OF a2 b c, of plain_resolver] f
  have 3: "resolve ?e2 plain_resolver no_args =
      (check_events ([IsAuthenticated] @ IsOwner # take (Suc 0) [IsAdmin, IsAuthenticated]) @
         (if fail_silently ?e2 then [] else [OnUnauthorized (perm_id ([IsAdmin, IsAuthenticated] ! 0))]),
       if fail_silently ?e2
       then Return (if return_empty_list ?e2 then PyList [] else PyNone)
       else call_on_unauthorized ([IsAdmin, IsAuthenticated] ! 0))"
    by blast
  from a a2 b c d f 1 show ?thesis
    unfolding 2 3 e1 e2 by simp
qed

subsection \<open>The value of \<^verbatim>\<open>next_\<close> on the asynchronous path\<close>

text \<open>
  C4, as stated, says that a plain value returned by \<^verbatim>\<open>next_\<close> is returned directly.
  \<^verbatim>\<open>resolve_async\<close> ends with \<^verbatim>\<open>return await next\<close>: with no permission and a \<^verbatim>\<open>next_\<close> that
  returns the integer 7 (\<open>plain_resolver\<close>), the outcome is a \<^verbatim>\<open>TypeError\<close>, not 7.
\<close>

theorem resolve_async_plain_value_counterexample:
  "plain_resolver no_args = Return (PyInt 7)
   \<and> snd (resolve_async (init [] True False) plain_resolver no_args) = Raise TypeError
   \<and> snd (resolve_async (init [] True False) plain_resolver no_args) \<noteq> Return (PyInt 7)"
  by (simp add: resolve_async_def init_def plain_resolver_def)

text \<open>
  C4, amended. After all permissions pass, \<^verbatim>\<open>resolve_async\<close> calls \<^verbatim>\<open>next_\<close>; an async
  generator is returned as the same object, neither awaited nor iterated; an awaitable
  is awaited and what it resolves to is returned.
\<close>

theorem resolve_async_result_of_next:
  assumes "list_all (\<lambda>p. async_verdict p args = Some True) (permissions self)"
    and "next_r args = Return nxt"
  shows "(isasyncgen nxt \<longrightarrow>
            resolve_async self next_r args = (check_events (permissions self) @ [Next], Return nxt))
       \<and> (nxt = PyAwaitable r \<longrightarrow>
            resolve_async self next_r args =
              (check_events (permissions self) @ [Next, AwaitNext], r))"
proof -
  from resolve_async_loop_granted_prefix [OF assms(1), of self "[]" next_r]
  have "resolve_async self next_r args =
      (check_events (permissions self) @ fst (resolve_async_loop self [] next_r args),
       snd (resolve_async_loop self [] next_r args))"
    by (simp add: resolve_async_def)
  with assms(2) show ?thesis by auto
qed

text \<open>The theorem at a \<^verbatim>\<open>next_\<close> returning an async generator, and at one returning a future.\<close>

theorem resolve_async_result_of_next_witness:
  "list_all (\<lambda>p. async_verdict p no_args = Some True) (permissions (init [IsAuthenticated] True False))
   \<and> isasyncgen (PyAsyncGen 5)
   \<and> resolve_async (init [IsAuthenticated] True False) (\<lambda>args. Return (PyAsyncGen 5)) no_args
       = ([HasPermission 0, Next], Return (PyAsyncGen 5))
   \<and> resolve_async (init [IsAuthenticated] True False)
         (\<lambda>args. Return (PyAwaitable (Return (PyInt 7)))) no_args
       = ([HasPermission 0, Next, AwaitNext], Return (PyInt 7))"
proof -
  let ?e = "init [IsAuthenticated] True False"
  have a: "list_all (\<lambda>p. async_verdict p no_args = Some True) (permissions ?e)"
    by (simp add: init_def async_verdict_def await_maybe_def example_defs)
  have e: "check_events (permissions ?e) = [HasPermission 0]"
    by (simp add: init_def check_events_def example_defs)
  from resolve_async_result_of_next [OF a, of "\<lambda>args. Return (PyAsyncGen 5)" "PyAsyncGen 5"]
    resolve_async_result_of_next [OF a, of "\<lambda>args. Return (PyAwaitable (Return (PyInt 7)))"
      "PyAwaitable (Return (PyInt 7))" "Return (PyInt 7)"] a
  show ?thesis by (simp add: e)
qed

subsection \<open>Setup with \<^verbatim>\<open>fail_silently\<close>\<close>

text \<open>
  C2. On an extension constructed with \<^verbatim>\<open>fail_silently=True\<close>, \<^verbatim>\<open>apply\<close> raises
  \<^verbatim>\<open>PermissionFailSilentlyRequiresOptionalError\<close> exactly when the type of the field is
  neither an optional nor a list (an optional of a list is an optional). Otherwise it
  completes; \<^verbatim>\<open>return_empty_list\<close> is then true for a list and for an optional of a list,
  and false for an optional of anything else.
\<close>

theorem fail_silently_setup:
  assumes "ext_apply (init ps use_dirs True) fld h = (h', fld', self', r)"
  shows "((\<exists>e. r = Raise e) \<longleftrightarrow> \<not> isinstance_optional (type fld) \<and> \<not> isinstance_list (type fld))
       \<and> (\<not> isinstance_optional (type fld) \<and> \<not> isinstance_list (type fld) \<longrightarrow>
            r = Raise (PermissionFailSilentlyRequiresOptionalError fld'))
       \<and> (isinstance_optional (type fld) \<or> isinstance_list (type fld) \<longrightarrow> r = Return PyNone)
       \<and> (isinstance_list (type fld) \<or> optional_of_list (type fld) \<longrightarrow> return_empty_list self')
       \<and> (isinstance_optional (type fld) \<and> \<not> optional_of_list (type fld) \<longrightarrow>
            \<not> return_empty_list self')"
  using assms
  by (auto simp: ext_apply_def init_def isinstance_optional_def isinstance_list_def
      optional_of_list_def split: strawberry_type.splits prod.splits if_splits)

text \<open>
  The theorem at an \<^verbatim>\<open>Int\<close> field (the call raises), at an optional list of \<^verbatim>\<open>Int\<close> and at
  an optional \<^verbatim>\<open>Int\<close>.
\<close>

theorem fail_silently_setup_witness:
  "ext_apply (init [IsAdmin] False True) \<lparr>directives = [], type = OtherType ''Int''\<rparr> empty_heap
     = (empty_heap, \<lparr>directives = [], type = OtherType ''Int''\<rparr>, init [IsAdmin] False True,
        Raise (PermissionFailSilentlyRequiresOptionalError \<lparr>directives = [], type = OtherType ''Int''\<rparr>))
   \<and> ext_apply (init [IsAdmin] False True)
         \<lparr>directives = [], type = StrawberryOptional (StrawberryList (OtherType ''Int''))\<rparr> empty_heap
     = (empty_heap, \<lparr>directives = [], type = StrawberryOptional (StrawberryList (OtherType ''Int''))\<rparr>,
        (init [IsAdmin] False True)\<lparr>return_empty_list := True\<rparr>, Return PyNone)
   \<and> ext_apply (init [IsAdmin] False True)
         \<lparr>directives = [], type = StrawberryOptional (OtherType ''Int'')\<rparr> empty_heap
     = (empty_heap, \<lparr>directives = [], type = StrawberryOptional (OtherType ''Int'')\<rparr>,
        init [IsAdmin] False True, Return PyNone)
   \<and> \<not> return_empty_list (init [IsAdmin] False True)"
proof -
  let ?e = "init [IsAdmin] False True"
  let ?scalar = "\<lparr>directives = [], type = OtherType ''Int''\<rparr>"
  let ?optlist = "\<lparr>directives = [], type = StrawberryOptional (StrawberryList (OtherType ''Int''))\<rparr>"
  let ?opt = "\<lparr>directives = [], type = StrawberryOptional (OtherType ''Int'')\<rparr>"
  obtain h1 f1 e1 r1 where a1: "ext_apply ?e ?scalar empty_heap = (h1, f1, e1, r1)"
    by (metis prod_cases4)
  obtain h2 f2 e2 r2 where a2: "ext_apply ?e ?optlist empty_heap = (h2, f2, e2, r2)"
    by (metis prod_cases4)
  obtain h3 f3 e3 r3 where a3: "ext_apply ?e ?opt empty_heap = (h3, f3, e3, r3)"
    by (metis prod_cases4)
  have shape: "\<not> isinstance_optional (type ?scalar)" "\<not> isinstance_list (type ?scalar)"
    "optional_of_list (type ?optlist)" "isinstance_optional (type ?optlist)"
    "isinstance_optional (type ?opt)" "\<not> optional_of_list (type ?opt)"
    by (simp_all add: isinstance_optional_def isinstance_list_def optional_of_list_def)
  have rest1: "h1 = empty_heap" "f1 = ?scalar" "e1 = ?e"
    using a1 by (simp_all add: ext_apply_def init_def)
  have rest2: "h2 = empty_heap" "f2 = ?optlist" "e2 = ?e\<lparr>return_empty_list := return_empty_list e2\<rparr>"
    using a2 by (auto simp add: ext_apply_def init_def)
  have rest3: "h3 = empty_heap" "f3 = ?opt" "e3 = ?e\<lparr>return_empty_list := return_empty_list e3\<rparr>"
    using a3 by (auto simp add: ext_apply_def init_def)
  from fail_silently_setup [OF a1] shape rest1
  have r1: "r1 = Raise (PermissionFailSilentlyRequiresOptionalError ?scalar)"
    by simp
  from fail_silently_setup [OF a2] shape
  have r2: "r2 = Return PyNone" "return_empty_list e2"
    by simp_all
  from fail_silently_setup [OF a3] shape
  have r3: "r3 = Return PyNone" "\<not> return_empty_list e3"
    by simp_all
  have e3: "e3 = ?e"
    using rest3(3) r3(2) by (simp add: init_def)
  have e2: "e2 = ?e\<lparr>return_empty_list := True\<rparr>"
    using rest2(3) r2(2) by simp
  show ?thesis
    using a1 a2 a3 by (simp only: rest1 rest2(1,2) rest3(1,2) r1 r2 r3 e2 e3 simp_thms) (simp add: init_def)
qed

subsection \<open>The default \<^verbatim>\<open>on_unauthorized\<close>\<close>

lemma map_of_dict_update:
  "distinct (map fst other) \<Longrightarrow>
   map_of (dict_update d other) k =
     (case map_of other k of Some v \<Rightarrow> Some v | None \<Rightarrow> map_of d k)"
proof (induction other arbitrary: d)
  case Nil
  then show ?case by (simp add: dict_update_def)
next
  case (Cons kv other)
  obtain k' v' where kv: "kv = (k', v')" by (cases kv)
  from Cons.prems kv have d: "distinct (map fst other)" and n: "k' \<notin> fst ` set other"
    by simp_all
  have step: "dict_update d (kv # other) = dict_update (AList.update k' v' d) other"
    by (simp add: dict_update_def kv)
  from n have none: "map_of other k' = None"
    by (simp add: map_of_eq_None_iff)
  show ?case
    unfolding step Cons.IH [OF d]
    by (simp add: kv update_conv' none split: option.splits)
qed

text \<open>
  C5. The \<^verbatim>\<open>on_unauthorized\<close> of \<^verbatim>\<open>BasePermission\<close> never returns: it raises an error that
  is the instance of \<^verbatim>\<open>error_class\<close> constructed with the message (the empty string when
  the message is unset), in whose extensions every key of \<^verbatim>\<open>error_extensions\<close> has the
  value the permission gives it and every other key has the value it had in the
  constructed error.
\<close>

theorem on_unauthorized_raises_merged_error:
  assumes "is_dict (error_extensions p)"
  shows "\<exists>e. on_unauthorized p = Raise (GraphQLErrorExn e)
           \<and> error_class_name e = error_class_name (constructed_error p)
           \<and> error_message e = error_message (constructed_error p)
           \<and> (\<forall>k. dict_get (extensions e) k =
                 (case dict_get (error_extensions p) k of
                    Some v \<Rightarrow> Some v
                  | None \<Rightarrow> dict_get (extensions (constructed_error p)) k))"
proof -
  have m: "(case message p of None \<Rightarrow> [] | Some m \<Rightarrow> if m = [] then [] else m)
      = (case message p of None \<Rightarrow> [] | Some m \<Rightarrow> m)"
    by (simp split: option.splits)
  show ?thesis
  proof (cases "error_extensions p")
    case None
    then show ?thesis
      by (simp add: on_unauthorized_def constructed_error_def m dict_get_def)
  next
    case (Some ours)
    with assms have d: "distinct (map fst ours)"
      by (simp add: is_dict_def)
    show ?thesis
    proof (cases "ours = []")
      case True
      with Some show ?thesis
        by (simp add: on_unauthorized_def constructed_error_def m dict_get_def)
    next
      case False
      with Some show ?thesis
        by (auto simp: on_unauthorized_def constructed_error_def m dict_get_def Let_def
            set_extensions_def dict_truthy_def map_of_dict_update [OF d]
            split: option.splits)
    qed
  qed
qed

text \<open>
  The theorem at \<open>HasRole\<close>: its error class sets the keys \<^verbatim>\<open>code\<close> and \<^verbatim>\<open>hint\<close>, the
  permission gives \<^verbatim>\<open>code\<close> and \<^verbatim>\<open>role\<close>.
\<close>

theorem on_unauthorized_raises_merged_error_witness:
  "is_dict (error_extensions HasRole)
   \<and> (\<exists>e. on_unauthorized HasRole = Raise (GraphQLErrorExn e)
         \<and> error_class_name e = ''RoleError''
         \<and> error_message e = []
         \<and> dict_get (extensions e) ''code'' = Some (PyStr ''FORBIDDEN'')
         \<and> dict_get (extensions e) ''hint'' = Some (PyStr ''ask an admin'')
         \<and> dict_get (extensions e) ''role'' = Some (PyStr ''editor''))"
proof -
  have d: "is_dict (error_extensions HasRole)"
    by (simp add: is_dict_def HasRole_def)
  have c: "constructed_error HasRole = GraphQLError ''RoleError'' []
      (Some [(''code'', PyStr ''ROLE''), (''hint'', PyStr ''ask an admin'')])"
    by (simp add: constructed_error_def HasRole_def RoleError_def)
  have x: "error_extensions HasRole = Some [(''code'', PyStr ''FORBIDDEN''), (''role'', PyStr ''editor'')]"
    by (simp add: HasRole_def)
  from on_unauthorized_raises_merged_error [OF d] obtain e where
    e: "on_unauthorized HasRole = Raise (GraphQLErrorExn e)"
      "error_class_name e = error_class_name (constructed_error HasRole)"
      "error_message e = error_message (constructed_error HasRole)"
      "\<And>k. dict_get (extensions e) k =
         (case dict_get (error_extensions HasRole) k of
            Some v \<Rightarrow> Some v
          | None \<Rightarrow> dict_get (extensions (constructed_error HasRole)) k)"
    by blast
  have "dict_get (extensions e) ''code'' = Some (PyStr ''FORBIDDEN'')"
    "dict_get (extensions e) ''hint'' = Some (PyStr ''ask an admin'')"
    "dict_get (extensions e) ''role'' = Some (PyStr ''editor'')"
    unfolding e(4) by (simp_all add: c x dict_get_def)
  with e(1,2,3) d show ?thesis
    by (auto simp: c)
qed

subsection \<open>\<^verbatim>\<open>supports_sync\<close>\<close>

text \<open>
  C6. The first read of \<^verbatim>\<open>supports_sync\<close> is false exactly when some permission of the list
  has a \<^verbatim>\<open>has_permission\<close> that is a coroutine function, and every later read on the same
  instance returns the same value, also after its list of permissions changed.
\<close>

theorem supports_sync_iff_no_coroutine_check:
  assumes "supports_sync_cache self = None"
    and "supports_sync self = (b, self')"
  shows "(\<not> b \<longleftrightarrow> (\<exists>p \<in> set (permissions self). iscoroutinefunction (has_permission p)))
       \<and> supports_sync self' = (b, self')
       \<and> supports_sync (self'\<lparr>permissions := ps'\<rparr>) = (b, self'\<lparr>permissions := ps'\<rparr>)"
proof -
  from assms have b: "b = supports_sync_body self"
    and s: "self' = self\<lparr>supports_sync_cache := Some b\<rparr>"
    by (auto simp: supports_sync_def Let_def)
  have "\<not> supports_sync_body self \<longleftrightarrow>
      (\<exists>p \<in> set (permissions self). iscoroutinefunction (has_permission p))"
    by (auto simp: supports_sync_body_def filter_empty_conv)
  with b s show ?thesis
    by (simp add: supports_sync_def)
qed

text \<open>The theorem at \<open>[IsAuthenticated, IsOwner]\<close>, the second an \<^verbatim>\<open>async def\<close>.\<close>

theorem supports_sync_iff_no_coroutine_check_witness:
  "supports_sync_cache (init [IsAuthenticated, IsOwner] True False) = None
   \<and> supports_sync (init [IsAuthenticated, IsOwner] True False)
       = (False, (init [IsAuthenticated, IsOwner] True False)\<lparr>supports_sync_cache := Some False\<rparr>)
   \<and> iscoroutinefunction (has_permission IsOwner)
   \<and> supports_sync ((init [IsAuthenticated, IsOwner] True False)
        \<lparr>supports_sync_cache := Some False, permissions := []\<rparr>)
       = (False, (init [IsAuthenticated, IsOwner] True False)
        \<lparr>supports_sync_cache := Some False, permissions := []\<rparr>)"
proof -
  let ?e = "init [IsAuthenticated, IsOwner] True False"
  have c: "supports_sync_cache ?e = None"
    by (simp add: init_def)
  have r: "supports_sync ?e = (False, ?e\<lparr>supports_sync_cache := Some False\<rparr>)"
    by (simp add: supports_sync_def supports_sync_body_def init_def example_defs)
  have i: "iscoroutinefunction (has_permission IsOwner)"
    by (simp add: IsOwner_def)
  from supports_sync_iff_no_coroutine_check [OF c r, of "[]"] c r i
  show ?thesis by simp
qed

subsection \<open>The schema directive of a permission\<close>

lemma schema_directive_slot_after:
  "schema_directive p h = (d, h1) \<Longrightarrow> schema_directive_slot h1 (perm_id p) = Some d"
  by (auto simp: schema_directive_def Let_def split: option.splits)

lemma schema_directive_slot_stable:
  "schema_directive_slot h i = Some d \<Longrightarrow>
   schema_directive_slot (snd (schema_directive q h)) i = Some d"
  by (auto simp: schema_directive_def Let_def split: option.splits)

lemma schema_directive_cached:
  "schema_directive_slot h (perm_id p) = Some d \<Longrightarrow> schema_directive p h = (d, h)"
  by (simp add: schema_directive_def)




subsection \<open>Attaching the directives\<close>

lemma set_keep_first: "set (keep_first xs) = set xs"
  by (induction xs rule: keep_first.induct) auto

lemma distinct_keep_first: "distinct (keep_first xs)"
  by (induction xs rule: keep_first.induct) (auto simp: set_keep_first)

lemma append_deduped_eq:
  "append_deduped pds fds = fds @ keep_first (filter (\<lambda>d. d \<notin> set fds) pds)"
proof (induction pds arbitrary: fds)
  case Nil
  then show ?case by simp
next
  case (Cons d pds)
  show ?case
  proof (cases "d \<in> set fds")
    case True
    then show ?thesis by (simp add: Cons.IH)
  next
    case False
    have "filter (\<lambda>x. x \<notin> set (fds @ [d])) pds = filter (\<lambda>y. y \<noteq> d) (filter (\<lambda>x. x \<notin> set fds) pds)"
      by (auto intro: filter_cong)
    with False show ?thesis by (simp add: Cons.IH)
  qed
qed

lemma permission_directives_slot_stable:
  "schema_directive_slot h i = Some d \<Longrightarrow>
   schema_directive_slot (snd (permission_directives ps h)) i = Some d"
proof (induction ps arbitrary: h)
  case Nil
  then show ?case by simp
next
  case (Cons p ps)
  from Cons.IH [OF schema_directive_slot_stable [OF schema_directive_slot_stable [OF Cons.prems, of p], of p]]
  show ?case by (simp add: split_beta)
qed

lemma permission_directives_eq:
  "permission_directives ps h = (pds, h') \<Longrightarrow> pds = map (\<lambda>p. fst (schema_directive p h')) ps"
proof (induction ps arbitrary: h pds h')
  case Nil
  then show ?case by simp
next
  case (Cons p ps)
  obtain g h1 where 1: "schema_directive p h = (g, h1)" by (cases "schema_directive p h")
  obtain d h2 where 2: "schema_directive p h1 = (d, h2)" by (cases "schema_directive p h1")
  obtain ds h3 where 3: "permission_directives ps h2 = (ds, h3)" by (cases "permission_directives ps h2")
  from Cons.prems 1 2 3 have r: "pds = d # ds" "h' = h3"
    by simp_all
  from permission_directives_slot_stable [OF schema_directive_slot_after [OF 2], of ps] 3
  have "schema_directive_slot h3 (perm_id p) = Some d"
    by simp
  then have "fst (schema_directive p h3) = d"
    by (simp add: schema_directive_cached)
  with Cons.IH [OF 3] r show ?case by simp
qed

text \<open>
  C7. With \<^verbatim>\<open>use_directives\<close> set, \<^verbatim>\<open>apply\<close> leaves the directives of the field in place and
  appends, in the order of their first occurrence and once each, the directives of the
  permissions that the field did not have: a directive is appended only if none of the
  same identity is present. A list without duplicates stays without duplicates; two
  permissions with one and the same directive, on a field that does not have it, add
  one entry.
\<close>

theorem apply_attaches_directives_deduped:
  assumes "use_directives self"
    and "permission_directives (permissions self) h = (pds, h1)"
    and "ext_apply self fld h = (h', fld', self', r)"
  shows "pds = map (\<lambda>p. fst (schema_directive p h')) (permissions self)
       \<and> directives fld' =
           directives fld @ keep_first (filter (\<lambda>d. d \<notin> set (directives fld)) pds)
       \<and> (distinct (directives fld) \<longrightarrow> distinct (directives fld'))
       \<and> (\<forall>d. pds = [d, d] \<and> d \<notin> set (directives fld) \<longrightarrow> directives fld' = directives fld @ [d])"
proof -
  from assms have h: "h' = h1"
    and f: "directives fld' = append_deduped pds (directives fld)"
    by (auto simp: ext_apply_def split: if_splits strawberry_type.splits)
  have a: "pds = map (\<lambda>p. fst (schema_directive p h')) (permissions self)"
    using permission_directives_eq [OF assms(2)] h by simp
  have b: "directives fld' =
      directives fld @ keep_first (filter (\<lambda>d. d \<notin> set (directives fld)) pds)"
    by (simp add: f append_deduped_eq)
  have c: "distinct (directives fld) \<longrightarrow> distinct (directives fld')"
    by (auto simp: b distinct_keep_first set_keep_first)
  have d: "\<forall>d. pds = [d, d] \<and> d \<notin> set (directives fld) \<longrightarrow> directives fld' = directives fld @ [d]"
    by (auto simp: b)
  from a b c d show ?thesis by blast
qed

text \<open>
  The theorem at the permissions \<open>[IsAdmin, IsAuthenticated, IsAdmin]\<close> on a field that
  has the directive of the second, and at \<open>[IsAdmin, IsAdmin]\<close>.
\<close>

theorem apply_attaches_directives_deduped_witness:
  "use_directives (init [IsAdmin, IsAuthenticated, IsAdmin] True False)
   \<and> fst (permission_directives (permissions (init [IsAdmin, IsAuthenticated, IsAdmin] True False)) empty_heap)
       = [10, 11, 10]
   \<and> distinct (directives \<lparr>directives = [11], type = OtherType ''Int''\<rparr>)
   \<and> directives (fst (snd (ext_apply (init [IsAdmin, IsAuthenticated, IsAdmin] True False)
        \<lparr>directives = [11], type = OtherType ''Int''\<rparr> empty_heap))) = [11, 10]
   \<and> fst (permission_directives (permissions (init [IsAdmin, IsAdmin] True False)) empty_heap) = [10, 10]
   \<and> directives (fst (snd (ext_apply (init [IsAdmin, IsAdmin] True False)
        \<lparr>directives = [3], type = OtherType ''Int''\<rparr> empty_heap))) = [3, 10]"
proof -
  let ?e = "init [IsAdmin, IsAuthenticated, IsAdmin] True False"
  let ?e2 = "init [IsAdmin, IsAdmin] True False"
  let ?f = "\<lparr>directives = [11], type = OtherType ''Int''\<rparr>"
  let ?f2 = "\<lparr>directives = [3], type = OtherType ''Int''\<rparr>"
  have u: "use_directives ?e" "use_directives ?e2"
    by (simp_all add: init_def)
  obtain h1 where p: "permission_directives (permissions ?e) empty_heap = ([10, 11, 10], h1)"
    by (simp add: init_def schema_directive_def empty_heap_def example_defs)
  obtain h2 where p2: "permission_directives (permissions ?e2) empty_heap = ([10, 10], h2)"
    by (simp add: init_def schema_directive_def empty_heap_def example_defs)
  obtain h' fld' self' r where a: "ext_apply ?e ?f empty_heap = (h', fld', self', r)"
    by (metis prod_cases4)
  obtain h2' fld2' self2' r2 where a2: "ext_apply ?e2 ?f2 empty_heap = (h2', fld2', self2', r2)"
    by (metis prod_cases4)
  from apply_attaches_directives_deduped [OF u(1) p a]
  have 1: "directives fld' = [11, 10]"
    by simp
  from apply_attaches_directives_deduped [OF u(2) p2 a2]
  have 2: "directives fld2' = [3, 10]"
    by simp
  from u p p2 1 2 show ?thesis
    by (simp add: a a2)
qed

end
